theory Spec2Isabelle
  imports Complex_Main "HOL-Library.Char_ord" "HOL-Library.List_Lexorder"
begin

section \<open>The per-domain rate limiter (class \<open>AsyncRateLimiter\<close>)\<close>

text \<open>
  Times and delays are Python floats; they are modelled as real numbers, so rounding is
  not part of the model. The ledger \<open>last_request_times\<close> is a \<open>defaultdict(float)\<close>:
  a dictionary from domain names to timestamps whose subscript read creates a missing
  key with the value \<open>0.0\<close>.
\<close>

record limiter =
  min_delay :: real
  max_delay :: real
  last_request_times :: "string \<rightharpoonup> real"

definition init :: "real \<Rightarrow> real \<Rightarrow> limiter" where
  \<comment> \<open>\<open>__init__\<close>: both bounds are stored as given, the ledger starts empty.\<close>
  "init lo hi = \<lparr>min_delay = lo, max_delay = hi, last_request_times = Map.empty\<rparr>"

definition getitem :: "(string \<rightharpoonup> real) \<Rightarrow> string \<Rightarrow> real \<times> (string \<rightharpoonup> real)" where
  \<comment> \<open>\<open>defaultdict(float).__getitem__\<close>: a present key is read; a missing key is first
      inserted with \<open>float() = 0.0\<close> and that value is returned.\<close>
  "getitem d k = (case d k of Some v \<Rightarrow> (v, d) | None \<Rightarrow> (0, d(k \<mapsto> 0)))"

definition uniform :: "real \<Rightarrow> real \<Rightarrow> real \<Rightarrow> real" where
  \<comment> \<open>\<open>random.uniform(a, b)\<close> is \<open>a + (b - a) * random()\<close>; the value \<open>r\<close> of
      \<open>random()\<close>, a number in the unit interval, is an input of the model.\<close>
  "uniform a b r = a + (b - a) * r"

text \<open>
  \<open>wait\<close> has one suspension point, the \<open>await asyncio.sleep(...)\<close> of line 50. The part
  of the body before it is \<open>wait_enter\<close>: it reads the clock (\<open>t\<close> is the value of the
  first \<open>time.time()\<close>), subscripts the ledger, draws the delay, and yields the limiter
  as it stands at the suspension point together with the requested sleep (\<open>None\<close> when
  the branch is not taken). The part after it is \<open>wait_exit\<close>, the ledger write of
  line 51 (\<open>t\<close> is the value of the second \<open>time.time()\<close>).
\<close>

definition wait_enter :: "limiter \<Rightarrow> string \<Rightarrow> real \<Rightarrow> real \<Rightarrow> limiter \<times> real option" where
  "wait_enter self domain t r =
     (let current_time = t;
          (last, times) = getitem (last_request_times self) domain;
          elapsed = current_time - last;
          delay = uniform (min_delay self) (max_delay self) r
      in (self\<lparr>last_request_times := times\<rparr>,
          if elapsed < delay then Some (delay - elapsed) else None))"

definition wait_exit :: "limiter \<Rightarrow> string \<Rightarrow> real \<Rightarrow> limiter" where
  "wait_exit self domain t =
     self\<lparr>last_request_times := (last_request_times self)(domain \<mapsto> t)\<rparr>"

text \<open>
  What the event loop does with a suspended task: it resumes it, or the task is
  cancelled and \<open>CancelledError\<close> is raised at the \<open>await\<close>. A call either returns or
  ends with that exception; both outcomes carry the limiter as the call leaves it.
\<close>

datatype resumption = Resumed | Cancel

datatype outcome = Returned limiter | CancelledError limiter

definition wait :: "limiter \<Rightarrow> string \<Rightarrow> real \<Rightarrow> real \<Rightarrow> resumption \<Rightarrow> real \<Rightarrow> outcome" where
  "wait self domain t0 r ev t1 =
     (case wait_enter self domain t0 r of
        (self1, None) \<Rightarrow> Returned (wait_exit self1 domain t1)
      | (self1, Some s) \<Rightarrow>
          (case ev of
             Cancel \<Rightarrow> CancelledError self1
           | Resumed \<Rightarrow> Returned (wait_exit self1 domain t1)))"

definition suspension :: "limiter \<Rightarrow> string \<Rightarrow> real \<Rightarrow> real \<Rightarrow> real option" where
  \<comment> \<open>The argument of \<open>asyncio.sleep\<close>, if the call sleeps at all.\<close>
  "suspension self domain t0 r = snd (wait_enter self domain t0 r)"

definition drawn_delay :: "limiter \<Rightarrow> real \<Rightarrow> real" where
  \<comment> \<open>The value bound to \<open>delay\<close> in line 48.\<close>
  "drawn_delay self r = uniform (min_delay self) (max_delay self) r"

definition resume_clock :: "real \<Rightarrow> real option \<Rightarrow> real \<Rightarrow> real" where
  \<comment> \<open>The clock at the second \<open>time.time()\<close> of a call entered at clock \<open>t0\<close>: the
      requested sleep has passed, and \<open>lag\<close> more (scheduling and execution time).\<close>
  "resume_clock t0 slept lag = t0 + (case slept of None \<Rightarrow> 0 | Some s \<Rightarrow> s) + lag"

definition stamp :: "outcome \<Rightarrow> string \<Rightarrow> real option" where
  \<comment> \<open>The ledger entry of a domain in the limiter a call leaves behind.\<close>
  "stamp out domain =
     (case out of Returned self \<Rightarrow> last_request_times self domain
                | CancelledError self \<Rightarrow> last_request_times self domain)"


section \<open>The progress snapshot (\<open>get_scraping_stats\<close>)\<close>

text \<open>
  The URL tracker is an object of another module; its three reads are parameters here.
  A read runs in a world \<open>'w\<close> (whatever state the tracker and the rest of the program
  hold), may change it, and either fails with an exception \<open>'e\<close> or yields its value.
\<close>

record ('w, 'e) url_tracker =
  get_pool_size :: "'w \<Rightarrow> ('e + int) \<times> 'w"
  get_visited_count :: "'w \<Rightarrow> ('e + int) \<times> 'w"
  is_pool_empty :: "'w \<Rightarrow> ('e + bool) \<times> 'w"

text \<open>
  The returned dictionary, with its three keys as fields. The values of a dictionary
  display are evaluated in the order written, and an exception leaves the display at
  once.
\<close>

record scraping_stats =
  urls_in_pool :: int
  urls_visited :: int
  is_pool_empty :: bool

definition get_scraping_stats :: "('w, 'e) url_tracker \<Rightarrow> 'w \<Rightarrow> ('e + scraping_stats) \<times> 'w" where
  "get_scraping_stats tracker w =
     (case get_pool_size tracker w of
        (Inl e, w1) \<Rightarrow> (Inl e, w1)
      | (Inr pool, w1) \<Rightarrow>
          (case get_visited_count tracker w1 of
             (Inl e, w2) \<Rightarrow> (Inl e, w2)
           | (Inr visited, w2) \<Rightarrow>
               (case url_tracker.is_pool_empty tracker w2 of
                  (Inl e, w3) \<Rightarrow> (Inl e, w3)
                | (Inr is_empty, w3) \<Rightarrow>
                    (Inr \<lparr>urls_in_pool = pool, urls_visited = visited, is_pool_empty = is_empty\<rparr>,
                     w3))))"


section \<open>The result formatter (\<open>format_output\<close>)\<close>

text \<open>
  \<open>results\<close> maps a URL to an entry, itself a dictionary with the keys \<open>content\<close>,
  \<open>discovered_urls\<close> and \<open>metadata\<close>, any of which may be missing. The entries are
  objects: the formatter writes into them, and the caller sees the writes. So the
  entries live in a heap, and \<open>results\<close> is the list of its items (URL, address of the
  entry) in insertion order, with distinct URLs. A metadata dictionary is only ever
  read and rebuilt, so it is a value: its items in order.
\<close>

datatype error = ValueError string | KeyError string

record 'v entry =
  content :: "string option"
  discovered_urls :: "string list option"
  metadata :: "(string \<times> 'v) list option"

type_synonym addr = nat

type_synonym 'v heap = "addr \<Rightarrow> 'v entry"

datatype 'v formatted = Table "string list list" | Mapping "(string \<times> 'v entry) list"

definition get_default :: "'a option \<Rightarrow> 'a \<Rightarrow> 'a" where
  \<comment> \<open>\<open>data.get(key, default)\<close>, on the field of that key.\<close>
  "get_default field dflt = (case field of None \<Rightarrow> dflt | Some x \<Rightarrow> x)"

fun join :: "string \<Rightarrow> string list \<Rightarrow> string" where
  \<comment> \<open>\<open>sep.join(xs)\<close>\<close>
  "join sep [] = []"
| "join sep [x] = x"
| "join sep (x # y # ys) = x @ sep @ join sep (y # ys)"

definition essential_fields :: "string list" where
  "essential_fields = [''url'', ''title'', ''content_type'']"

definition keep_essential :: "'v entry \<Rightarrow> 'v entry" where
  \<comment> \<open>Lines 109 to 112: an entry with a \<open>metadata\<close> key gets a new metadata dictionary,
      the items of the old one whose key is an essential field.\<close>
  "keep_essential data =
     (case metadata data of
        None \<Rightarrow> data
      | Some md \<Rightarrow> data\<lparr>metadata := Some (filter (\<lambda>(k, v). k \<in> set essential_fields) md)\<rparr>)"

definition filter_metadata :: "(string \<times> addr) list \<Rightarrow> 'v heap \<Rightarrow> 'v heap" where
  \<comment> \<open>The loop of lines 108 to 112 over the items of \<open>sorted_results\<close>; \<open>data\<close> is the
      entry object itself, so the assignment is a write to the heap.\<close>
  "filter_metadata sorted_results h =
     fold (\<lambda>(url, a) h. h(a := keep_essential (h a))) sorted_results h"

fun for_items :: "(string \<Rightarrow> 'v entry \<Rightarrow> error + 'r) \<Rightarrow> 'v heap \<Rightarrow> (string \<times> addr) list \<Rightarrow> error + 'r list" where
  \<comment> \<open>A loop \<open>for url, data in sorted_results.items()\<close> that collects one result per
      item and ends at the first exception.\<close>
  "for_items body h [] = Inr []"
| "for_items body h ((url, a) # rest) =
     (case body url (h a) of
        Inl e \<Rightarrow> Inl e
      | Inr x \<Rightarrow> (case for_items body h rest of Inl e \<Rightarrow> Inl e | Inr xs \<Rightarrow> Inr (x # xs)))"

text \<open>
  The bodies of the three loops. \<open>json.dumps\<close> is a parameter (\<open>dumps\<close>), a total
  function: metadata values are taken to be serialisable. The subscript
  \<open>data['content']\<close> raises \<open>KeyError\<close> on an entry without that key.
\<close>

definition csv_row_urls :: "((string \<times> 'v) list \<Rightarrow> string) \<Rightarrow> string \<Rightarrow> 'v entry \<Rightarrow> error + string list" where
  "csv_row_urls dumps url data =
     (let metadata_str = dumps (get_default (metadata data) [])
      in case content data of
           None \<Rightarrow> Inl (KeyError ''content'')
         | Some c \<Rightarrow>
             Inr [url, c, join '', '' (get_default (discovered_urls data) []), metadata_str])"

definition csv_row :: "((string \<times> 'v) list \<Rightarrow> string) \<Rightarrow> string \<Rightarrow> 'v entry \<Rightarrow> error + string list" where
  "csv_row dumps url data =
     (let metadata_str = dumps (get_default (metadata data) [])
      in case content data of
           None \<Rightarrow> Inl (KeyError ''content'')
         | Some c \<Rightarrow> Inr [url, c, metadata_str])"

definition clean_item :: "string \<Rightarrow> 'v entry \<Rightarrow> error + (string \<times> 'v entry)" where
  "clean_item url data =
     (let md = get_default (metadata data) []
      in case content data of
           None \<Rightarrow> Inl (KeyError ''content'')
         | Some c \<Rightarrow>
             Inr (url, \<lparr>content = Some c, discovered_urls = None, metadata = Some md\<rparr>))"

text \<open>
  \<open>format_output\<close> returns its value or exception together with the heap it leaves.
  \<open>dict(sorted(results.items()))\<close> is a new dictionary over the same entry objects, in
  the order of the URLs. A returned dictionary is given by its items, each entry as it
  is in the heap at the return.
\<close>

definition format_output :: "((string \<times> 'v) list \<Rightarrow> string) \<Rightarrow> 'v heap \<Rightarrow> (string \<times> addr) list \<Rightarrow> string \<Rightarrow> bool \<Rightarrow> bool \<Rightarrow> (error + 'v formatted) \<times> 'v heap" where
  "format_output dumps h results output_format include_urls essential_metadata_only =
     (let sorted_results = sort_key fst results;
          h1 = (if essential_metadata_only then filter_metadata sorted_results h else h)
      in if output_format = ''csv'' then
           (if include_urls then
              (case for_items (csv_row_urls dumps) h1 sorted_results of
                 Inl e \<Rightarrow> (Inl e, h1)
               | Inr rows \<Rightarrow>
                   (Inr (Table ([''URL'', ''Content'', ''Discovered URLs'', ''Metadata''] # rows)), h1))
            else
              (case for_items (csv_row dumps) h1 sorted_results of
                 Inl e \<Rightarrow> (Inl e, h1)
               | Inr rows \<Rightarrow> (Inr (Table ([''URL'', ''Content'', ''Metadata''] # rows)), h1)))
         else if output_format = ''json'' then
           (if \<not> include_urls then
              (case for_items clean_item h1 sorted_results of
                 Inl e \<Rightarrow> (Inl e, h1)
               | Inr clean_results \<Rightarrow> (Inr (Mapping clean_results), h1))
            else (Inr (Mapping (map (\<lambda>(url, a). (url, h1 a)) sorted_results)), h1))
         else (Inl (ValueError (''Invalid output format: '' @ output_format)), h1))"


section \<open>Properties of the rate limiter\<close>

lemma suspension_absent:
  "last_request_times self d = None \<Longrightarrow>
   suspension self d t0 r = (if t0 < drawn_delay self r then Some (drawn_delay self r - t0) else None)"
  by (simp add: suspension_def wait_enter_def getitem_def drawn_delay_def)

lemma suspension_present:
  "last_request_times self d = Some v \<Longrightarrow>
   suspension self d t0 r =
     (if t0 - v < drawn_delay self r then Some (drawn_delay self r - (t0 - v)) else None)"
  by (simp add: suspension_def wait_enter_def getitem_def drawn_delay_def)

lemma uniform_upper: "a \<le> b \<Longrightarrow> 0 \<le> r \<Longrightarrow> r \<le> 1 \<Longrightarrow> uniform a b r \<le> b"
proof -
  assume ab: "a \<le> b" and r0: "0 \<le> r" and r1: "r \<le> 1"
  have "(b - a) * r \<le> (b - a) * 1"
    using ab r1 by (intro mult_left_mono) simp_all
  then show ?thesis by (simp add: uniform_def)
qed

lemma uniform_lower: "a \<le> b \<Longrightarrow> 0 \<le> r \<Longrightarrow> a \<le> uniform a b r"
  by (simp add: uniform_def)

text \<open>
  C1, as the specification states it: a first call for a domain never sleeps, whatever
  the clock and the bounds. It fails: the missing entry reads as the timestamp \<open>0.0\<close>,
  so at clock 5 with both bounds 10 the call sleeps for 5.
\<close>

theorem first_wait_suspends_counterexample:
  "last_request_times (init 10 10) ''a.com'' = None \<and>
   min_delay (init 10 10) \<le> max_delay (init 10 10) \<and>
   suspension (init 10 10) ''a.com'' 5 0 = Some 5"
  by (simp add: init_def suspension_def wait_enter_def getitem_def uniform_def Let_def)

text \<open>
  C1, amended: for a domain with no ledger entry, \<open>wait\<close> sleeps exactly when the clock
  at entry is below the drawn delay (the missing entry counts as timestamp \<open>0.0\<close>). So
  with \<open>min_delay \<le> max_delay\<close> and a clock reading of at least \<open>max_delay\<close>, as any
  epoch clock gives for ordinary delays, the first call returns without sleeping.
\<close>

theorem first_wait_no_suspension:
  assumes "last_request_times self d = None"
  shows "(suspension self d t0 r = None) = (drawn_delay self r \<le> t0) \<and>
         (min_delay self \<le> max_delay self \<and> 0 \<le> r \<and> r \<le> 1 \<and> max_delay self \<le> t0 \<longrightarrow>
          suspension self d t0 r = None)"
proof -
  have exact: "(suspension self d t0 r = None) = (drawn_delay self r \<le> t0)"
    using assms by (simp add: suspension_absent)
  have "suspension self d t0 r = None"
    if "min_delay self \<le> max_delay self" "0 \<le> r" "r \<le> 1" "max_delay self \<le> t0"
  proof -
    have "drawn_delay self r \<le> max_delay self"
      using that uniform_upper [of "min_delay self" "max_delay self" r]
      by (simp add: drawn_delay_def)
    with that exact show ?thesis by simp
  qed
  with exact show ?thesis by blast
qed

theorem first_wait_no_suspension_witness:
  "last_request_times (init 1 3) ''a.com'' = None \<and>
   min_delay (init 1 3) \<le> max_delay (init 1 3) \<and> (0::real) \<le> 1/2 \<and> (1/2::real) \<le> 1 \<and>
   max_delay (init 1 3) \<le> 1700000000 \<and>
   drawn_delay (init 1 3) (1/2) = 2 \<and>
   suspension (init 1 3) ''a.com'' 1700000000 (1/2) = None"
proof -
  have a: "last_request_times (init 1 3) ''a.com'' = None"
    by (simp add: init_def)
  have b: "min_delay (init 1 3) \<le> max_delay (init 1 3) \<and> max_delay (init 1 3) \<le> 1700000000"
    by (simp add: init_def)
  have d: "drawn_delay (init 1 3) (1/2) = 2"
    by (simp add: init_def drawn_delay_def uniform_def)
  have "suspension (init 1 3) ''a.com'' 1700000000 (1/2) = None"
    using first_wait_no_suspension [OF a, of 1700000000 "1/2"] b by simp
  with a b d show ?thesis by simp
qed

text \<open>
  C2, as the specification states it: a call cancelled at its sleep leaves the ledger
  exactly as it found it. It fails for a domain without an entry: the subscript read of
  line 47 has already created the entry with value \<open>0.0\<close> when the task reaches the
  sleep.
\<close>

theorem cancelled_wait_ledger_counterexample:
  "wait (init 10 10) ''a.com'' 5 0 Cancel 5 =
     CancelledError ((init 10 10)\<lparr>last_request_times := [''a.com'' \<mapsto> 0]\<rparr>) \<and>
   last_request_times (init 10 10) ''a.com'' = None \<and>
   last_request_times ((init 10 10)\<lparr>last_request_times := [''a.com'' \<mapsto> 0]\<rparr>) ''a.com'' = Some 0"
  by (simp add: init_def wait_def wait_enter_def getitem_def uniform_def Let_def)

text \<open>
  C2, amended: when a call of \<open>wait d\<close> is cancelled at its sleep, the ledger is the one
  from before the call, except that a domain \<open>d\<close> without an entry has received the
  default entry \<open>0.0\<close>. No entry that existed is modified, every domain still reads (with
  the default for a missing key) as it did before, the bounds are untouched, and the new
  timestamp is not written.
\<close>

theorem cancelled_wait_ledger:
  assumes "wait self d t0 r Cancel t1 = CancelledError self'"
  shows "last_request_times self' =
           (case last_request_times self d of
              None \<Rightarrow> (last_request_times self)(d \<mapsto> 0)
            | Some v \<Rightarrow> last_request_times self) \<and>
         (\<forall>k v. last_request_times self k = Some v \<longrightarrow> last_request_times self' k = Some v) \<and>
         (\<forall>k. fst (getitem (last_request_times self') k) = fst (getitem (last_request_times self) k)) \<and>
         min_delay self' = min_delay self \<and> max_delay self' = max_delay self"
  using assms
  by (auto simp add: wait_def wait_enter_def getitem_def Let_def
      split: option.splits if_splits prod.splits)

theorem cancelled_wait_ledger_witness:
  "wait \<lparr>min_delay = 2, max_delay = 2, last_request_times = [''a.com'' \<mapsto> 100]\<rparr>
        ''a.com'' 101 0 Cancel 102 =
     CancelledError \<lparr>min_delay = 2, max_delay = 2, last_request_times = [''a.com'' \<mapsto> 100]\<rparr> \<and>
   suspension \<lparr>min_delay = 2, max_delay = 2, last_request_times = [''a.com'' \<mapsto> 100]\<rparr>
        ''a.com'' 101 0 = Some 1"
proof -
  let ?l = "\<lparr>min_delay = 2, max_delay = 2, last_request_times = [''a.com'' \<mapsto> 100]\<rparr>"
  have run: "wait ?l ''a.com'' 101 0 Cancel 102 = CancelledError ?l"
    by (simp add: wait_def wait_enter_def getitem_def uniform_def Let_def)
  have "last_request_times ?l = [''a.com'' \<mapsto> 100]"
    using cancelled_wait_ledger [OF run] by simp
  moreover have "suspension ?l ''a.com'' 101 0 = Some 1"
    by (simp add: suspension_def wait_enter_def getitem_def uniform_def Let_def)
  ultimately show ?thesis using run by simp
qed

text \<open>
  C3: with \<open>min_delay \<le> max_delay\<close>, when two calls of \<open>wait d\<close> run one after the other,
  the second returns (its second clock reading, after at least the requested sleep) no
  earlier than \<open>min_delay\<close> after the timestamp the first call recorded, and the delay
  drawn in each call is at most \<open>max_delay\<close>.
\<close>

theorem sequential_waits_spacing:
  assumes bounds: "min_delay self \<le> max_delay self"
    and draws: "0 \<le> r1" "r1 \<le> 1" "0 \<le> r2" "r2 \<le> 1"
    and lag: "0 \<le> lag"
    and first: "wait self d t0 r1 Resumed t1 = Returned self1"
    and t2: "t2 = resume_clock t0' (suspension self1 d t0' r2) lag"
    and second: "wait self1 d t0' r2 Resumed t2 = Returned self2"
  shows "last_request_times self1 d = Some t1 \<and>
         last_request_times self2 d = Some t2 \<and>
         t1 + min_delay self \<le> t2 \<and>
         drawn_delay self r1 \<le> max_delay self \<and>
         drawn_delay self1 r2 \<le> max_delay self"
proof -
  have s1: "last_request_times self1 d = Some t1"
    and lo1: "min_delay self1 = min_delay self" and hi1: "max_delay self1 = max_delay self"
    using first
    by (auto simp add: wait_def wait_enter_def wait_exit_def getitem_def Let_def
        split: option.splits if_splits prod.splits)
  have s2: "last_request_times self2 d = Some t2"
    using second
    by (auto simp add: wait_def wait_enter_def wait_exit_def getitem_def Let_def
        split: option.splits if_splits prod.splits)
  have d1: "drawn_delay self r1 \<le> max_delay self"
    using bounds draws uniform_upper [of "min_delay self" "max_delay self" r1]
    by (simp add: drawn_delay_def)
  have d2: "drawn_delay self1 r2 \<le> max_delay self"
    using bounds draws uniform_upper [of "min_delay self" "max_delay self" r2]
    by (simp add: drawn_delay_def lo1 hi1)
  have lo: "min_delay self \<le> drawn_delay self1 r2"
    using bounds draws uniform_lower [of "min_delay self" "max_delay self" r2]
    by (simp add: drawn_delay_def lo1 hi1)
  have "t1 + drawn_delay self1 r2 \<le> t2"
    using lag by (simp add: t2 suspension_present [OF s1] resume_clock_def)
  with lo have "t1 + min_delay self \<le> t2" by simp
  with s1 s2 d1 d2 show ?thesis by simp
qed

theorem sequential_waits_spacing_witness:
  "wait (init 2 2) ''a.com'' 1000 (1/2) Resumed 1000 =
     Returned \<lparr>min_delay = 2, max_delay = 2, last_request_times = [''a.com'' \<mapsto> 1000]\<rparr> \<and>
   suspension \<lparr>min_delay = 2, max_delay = 2, last_request_times = [''a.com'' \<mapsto> 1000]\<rparr>
     ''a.com'' 1001 (1/2) = Some 1 \<and>
   wait \<lparr>min_delay = 2, max_delay = 2, last_request_times = [''a.com'' \<mapsto> 1000]\<rparr>
     ''a.com'' 1001 (1/2) Resumed 1002 =
     Returned \<lparr>min_delay = 2, max_delay = 2, last_request_times = [''a.com'' \<mapsto> 1002]\<rparr> \<and>
   (1000::real) + min_delay (init 2 2) \<le> 1002"
proof -
  let ?l1 = "\<lparr>min_delay = 2, max_delay = 2, last_request_times = [''a.com'' \<mapsto> 1000]\<rparr>"
  let ?l2 = "\<lparr>min_delay = 2, max_delay = 2, last_request_times = [''a.com'' \<mapsto> 1002]\<rparr>"
  have b: "min_delay (init 2 2) \<le> max_delay (init 2 2)"
    by (simp add: init_def)
  have first: "wait (init 2 2) ''a.com'' 1000 (1/2) Resumed 1000 = Returned ?l1"
    by (simp add: init_def wait_def wait_enter_def wait_exit_def getitem_def uniform_def Let_def)
  have susp: "suspension ?l1 ''a.com'' 1001 (1/2) = Some 1"
    by (simp add: suspension_def wait_enter_def getitem_def uniform_def Let_def)
  have t2: "(1002::real) = resume_clock 1001 (suspension ?l1 ''a.com'' 1001 (1/2)) 0"
    by (simp add: susp resume_clock_def)
  have second: "wait ?l1 ''a.com'' 1001 (1/2) Resumed 1002 = Returned ?l2"
    by (simp add: wait_def wait_enter_def wait_exit_def getitem_def uniform_def Let_def)
  have "(1000::real) + min_delay (init 2 2) \<le> 1002"
    using sequential_waits_spacing [OF b _ _ _ _ _ first t2 second] by simp
  with first susp second show ?thesis by simp
qed

text \<open>
  C4: a call of \<open>wait a\<close> reads no ledger entry but that of \<open>a\<close>. Two limiters with the
  same bounds whose ledgers agree on \<open>a\<close>, however they differ on other domains, sleep
  for the same duration (or both not at all) and leave the same entry for \<open>a\<close>, given
  the same clock readings and random draw.
\<close>

theorem wait_independent_of_other_domains:
  assumes "last_request_times s1 a = last_request_times s2 a"
    and "min_delay s1 = min_delay s2" and "max_delay s1 = max_delay s2"
  shows "suspension s1 a t0 r = suspension s2 a t0 r \<and>
         stamp (wait s1 a t0 r ev t1) a = stamp (wait s2 a t0 r ev t1) a"
proof -
  have susp: "suspension s1 a t0 r = suspension s2 a t0 r"
    using assms
    by (cases "last_request_times s2 a")
       (simp_all add: suspension_absent suspension_present drawn_delay_def)
  have enter: "last_request_times (fst (wait_enter s1 a t0 r)) a =
               last_request_times (fst (wait_enter s2 a t0 r)) a"
    using assms
    by (cases "last_request_times s2 a") (simp_all add: wait_enter_def getitem_def Let_def)
  have out: "stamp (wait s a t0 r ev t1) a =
      (case suspension s a t0 r of
         None \<Rightarrow> Some t1
       | Some x \<Rightarrow> (case ev of Resumed \<Rightarrow> Some t1
                               | Cancel \<Rightarrow> last_request_times (fst (wait_enter s a t0 r)) a))"
    for s
    by (cases "wait_enter s a t0 r")
       (simp add: stamp_def wait_def suspension_def wait_exit_def
          split: option.splits resumption.splits)
  show ?thesis
    using susp enter by (simp add: out split: option.splits resumption.splits)
qed

theorem wait_independent_of_other_domains_witness:
  "suspension \<lparr>min_delay = 2, max_delay = 2,
               last_request_times = [''a.com'' \<mapsto> 1000]\<rparr> ''a.com'' 1001 0 = Some 1 \<and>
   suspension \<lparr>min_delay = 2, max_delay = 2,
               last_request_times = [''a.com'' \<mapsto> 1000, ''b.com'' \<mapsto> 1001]\<rparr> ''a.com'' 1001 0 = Some 1 \<and>
   stamp (wait \<lparr>min_delay = 2, max_delay = 2,
                 last_request_times = [''a.com'' \<mapsto> 1000, ''b.com'' \<mapsto> 1001]\<rparr>
            ''a.com'' 1001 0 Resumed 1002) ''a.com'' = Some 1002"
proof -
  let ?s1 = "\<lparr>min_delay = 2, max_delay = 2, last_request_times = [''a.com'' \<mapsto> 1000]\<rparr>"
  let ?s2 = "\<lparr>min_delay = 2, max_delay = 2,
              last_request_times = [''a.com'' \<mapsto> 1000, ''b.com'' \<mapsto> 1001]\<rparr>"
  have agree: "last_request_times ?s1 ''a.com'' = last_request_times ?s2 ''a.com''"
    by simp
  have one: "suspension ?s1 ''a.com'' 1001 0 = Some 1"
    by (simp add: suspension_def wait_enter_def getitem_def uniform_def Let_def)
  have st: "stamp (wait ?s1 ''a.com'' 1001 0 Resumed 1002) ''a.com'' = Some 1002"
    by (simp add: stamp_def wait_def wait_enter_def wait_exit_def getitem_def uniform_def Let_def)
  show ?thesis
    using wait_independent_of_other_domains [OF agree, of 1001 0 Resumed 1002] one st
    by simp
qed

text \<open>
  C5: the timestamp a completed call of \<open>wait d\<close> stores for \<open>d\<close> is the second clock
  reading, taken after the sleep (if any), whatever the reading at entry was. When the
  call sleeps for \<open>s\<close> and the clock has advanced by at least the requested sleep when
  the task resumes, the stored timestamp is at least \<open>s\<close> above the reading at entry.
\<close>

theorem stored_timestamp_is_read_after_sleep:
  "stamp (wait self d t0 r Resumed t1) d = Some t1 \<and>
   (suspension self d t0 r = Some s \<and> 0 \<le> lag \<longrightarrow>
      (\<exists>ts. stamp (wait self d t0 r Resumed (resume_clock t0 (suspension self d t0 r) lag)) d
               = Some ts \<and> t0 + s \<le> ts))"
proof -
  have stored: "stamp (wait self d t0 r Resumed t) d = Some t" for t
    by (cases "wait_enter self d t0 r")
       (simp add: stamp_def wait_def wait_exit_def split: option.splits)
  have "t0 + s \<le> resume_clock t0 (suspension self d t0 r) lag"
    if "suspension self d t0 r = Some s" "0 \<le> lag"
    using that by (simp add: resume_clock_def)
  with stored show ?thesis by simp
qed

theorem stored_timestamp_is_read_after_sleep_witness:
  "suspension \<lparr>min_delay = 2, max_delay = 2,
               last_request_times = [''a.com'' \<mapsto> 1000]\<rparr> ''a.com'' 1001 0 = Some 1 \<and>
   resume_clock 1001 (Some 1) (1/4) = 1002 + 1/4 \<and>
   stamp (wait \<lparr>min_delay = 2, max_delay = 2, last_request_times = [''a.com'' \<mapsto> 1000]\<rparr>
            ''a.com'' 1001 0 Resumed (1002 + 1/4)) ''a.com'' = Some (1002 + 1/4) \<and>
   (1001::real) + 1 \<le> 1002 + 1/4"
proof -
  let ?s = "\<lparr>min_delay = 2, max_delay = 2, last_request_times = [''a.com'' \<mapsto> 1000]\<rparr>"
  have one: "suspension ?s ''a.com'' 1001 0 = Some 1"
    by (simp add: suspension_def wait_enter_def getitem_def uniform_def Let_def)
  have clock: "resume_clock 1001 (Some 1) (1/4) = 1002 + 1/4"
    by (simp add: resume_clock_def)
  have "stamp (wait ?s ''a.com'' 1001 0 Resumed (1002 + 1/4)) ''a.com'' = Some (1002 + 1/4)"
    using stored_timestamp_is_read_after_sleep [of ?s "''a.com''" 1001 0 "1002 + 1/4" 1 "1/4"]
    by blast
  with one clock show ?thesis by simp
qed

text \<open>
  C6: a call of \<open>wait d\<close> that returns changes nothing but the ledger entry of \<open>d\<close>: the
  entry of every other domain, present or absent, is as before, and so are \<open>min_delay\<close>
  and \<open>max_delay\<close>.
\<close>

theorem wait_frame:
  assumes "wait self d t0 r ev t1 = Returned self'" and "d' \<noteq> d"
  shows "last_request_times self' d' = last_request_times self d' \<and>
         min_delay self' = min_delay self \<and> max_delay self' = max_delay self"
  using assms
  by (auto simp add: wait_def wait_enter_def wait_exit_def getitem_def Let_def
      split: option.splits if_splits prod.splits resumption.splits)

theorem wait_frame_witness:
  "wait \<lparr>min_delay = 2, max_delay = 3, last_request_times = [''b.com'' \<mapsto> 7]\<rparr>
      ''a.com'' 1000 0 Resumed 1000 =
     Returned \<lparr>min_delay = 2, max_delay = 3,
               last_request_times = [''b.com'' \<mapsto> 7, ''a.com'' \<mapsto> 1000]\<rparr> \<and>
   ''b.com'' \<noteq> ''a.com'' \<and>
   last_request_times \<lparr>min_delay = 2, max_delay = 3,
               last_request_times = [''b.com'' \<mapsto> 7, ''a.com'' \<mapsto> 1000]\<rparr> ''b.com'' = Some 7 \<and>
   last_request_times \<lparr>min_delay = 2, max_delay = 3,
               last_request_times = [''b.com'' \<mapsto> 7, ''a.com'' \<mapsto> 1000]\<rparr> ''c.com'' = None"
proof -
  let ?s = "\<lparr>min_delay = 2, max_delay = 3, last_request_times = [''b.com'' \<mapsto> 7]\<rparr>"
  let ?s' = "\<lparr>min_delay = 2, max_delay = 3,
              last_request_times = [''b.com'' \<mapsto> 7, ''a.com'' \<mapsto> 1000]\<rparr>"
  have run: "wait ?s ''a.com'' 1000 0 Resumed 1000 = Returned ?s'"
    by (simp add: wait_def wait_enter_def wait_exit_def getitem_def uniform_def Let_def)
  have ne: "''b.com'' \<noteq> ''a.com''" and ne': "''c.com'' \<noteq> ''a.com''"
    by simp_all
  have "last_request_times ?s' ''b.com'' = Some 7"
    using wait_frame [OF run ne] by simp
  moreover have "last_request_times ?s' ''c.com'' = None"
    using wait_frame [OF run ne'] by simp
  ultimately show ?thesis using run ne by simp
qed

section \<open>Properties of the progress snapshot\<close>

text \<open>
  C7: when the three reads succeed, \<open>get_scraping_stats\<close> returns the record whose
  fields are exactly the values the reads returned, pool size, visited count and
  pool-empty flag in this order; on an empty store, whose reads return 0, 0 and true,
  that is the record with 0, 0 and true.
\<close>

theorem get_scraping_stats_fields:
  assumes "get_pool_size tracker w = (Inr p, w1)"
    and "get_visited_count tracker w1 = (Inr v, w2)"
    and "url_tracker.is_pool_empty tracker w2 = (Inr b, w3)"
  shows "get_scraping_stats tracker w =
           (Inr \<lparr>urls_in_pool = p, urls_visited = v, is_pool_empty = b\<rparr>, w3)"
  using assms by (simp add: get_scraping_stats_def)

theorem get_scraping_stats_fields_witness:
  "get_scraping_stats
     \<lparr>get_pool_size = (\<lambda>w::unit. (Inr 0 :: string + int, w)),
      get_visited_count = (\<lambda>w. (Inr 0, w)),
      is_pool_empty = (\<lambda>w. (Inr True, w))\<rparr> () =
   (Inr \<lparr>urls_in_pool = 0, urls_visited = 0, is_pool_empty = True\<rparr>, ())"
  by (rule get_scraping_stats_fields) simp_all

text \<open>
  C8: \<open>get_scraping_stats\<close> does nothing about a failing read. The exception of the
  first read that fails is the outcome, as raised, and no further read is issued: the
  world is the one that read left. The function writes nothing itself: any part of the
  world that the three reads leave alone (the state of this module, say) is the same
  after the call as before, whether the call succeeds or fails.
\<close>

theorem get_scraping_stats_propagates:
  "(get_pool_size tracker w = (Inl e, w1) \<longrightarrow>
      get_scraping_stats tracker w = (Inl e, w1)) \<and>
   (get_pool_size tracker w = (Inr p, w1) \<and> get_visited_count tracker w1 = (Inl e, w2) \<longrightarrow>
      get_scraping_stats tracker w = (Inl e, w2)) \<and>
   (get_pool_size tracker w = (Inr p, w1) \<and> get_visited_count tracker w1 = (Inr v, w2) \<and>
    url_tracker.is_pool_empty tracker w2 = (Inl e, w3) \<longrightarrow>
      get_scraping_stats tracker w = (Inl e, w3)) \<and>
   ((\<forall>x. own (snd (get_pool_size tracker x)) = own x) \<and>
    (\<forall>x. own (snd (get_visited_count tracker x)) = own x) \<and>
    (\<forall>x. own (snd (url_tracker.is_pool_empty tracker x)) = own x) \<longrightarrow>
      own (snd (get_scraping_stats tracker w)) = own w)"
proof -
  have frame: "own (snd (get_scraping_stats tracker w)) = own w"
    if a: "\<forall>x. own (snd (get_pool_size tracker x)) = own x"
      and b: "\<forall>x. own (snd (get_visited_count tracker x)) = own x"
      and c: "\<forall>x. own (snd (url_tracker.is_pool_empty tracker x)) = own x"
  proof -
    obtain r1 x1 where r1: "get_pool_size tracker w = (r1, x1)"
      by (cases "get_pool_size tracker w")
    obtain r2 x2 where r2: "get_visited_count tracker x1 = (r2, x2)"
      by (cases "get_visited_count tracker x1")
    obtain r3 x3 where r3: "url_tracker.is_pool_empty tracker x2 = (r3, x3)"
      by (cases "url_tracker.is_pool_empty tracker x2")
    have "own x1 = own w" using a [rule_format, of w] r1 by simp
    moreover have "own x2 = own x1" using b [rule_format, of x1] r2 by simp
    moreover have "own x3 = own x2" using c [rule_format, of x2] r3 by simp
    ultimately show ?thesis
      by (simp add: get_scraping_stats_def r1 r2 r3 split: sum.splits)
  qed
  show ?thesis
    using frame by (simp add: get_scraping_stats_def)
qed

text \<open>
  A tracker over a world of two parts: the number of reads issued so far, and a value
  that belongs to somebody else. Its second read fails.
\<close>

theorem get_scraping_stats_propagates_witness:
  "get_scraping_stats
     \<lparr>get_pool_size = (\<lambda>(n, s). (Inr 3, (Suc n, s))),
      get_visited_count = (\<lambda>(n, s). (Inl ''not initialised'', (Suc n, s))),
      is_pool_empty = (\<lambda>(n, s). (Inr False, (Suc n, s)))\<rparr> (0::nat, 42::int) =
   (Inl ''not initialised'', (2, 42)) \<and>
   snd (snd (get_scraping_stats
     \<lparr>get_pool_size = (\<lambda>(n, s). (Inr 3, (Suc n, s))),
      get_visited_count = (\<lambda>(n, s). (Inl ''not initialised'', (Suc n, s))),
      is_pool_empty = (\<lambda>(n, s). (Inr False, (Suc n, s)))\<rparr> (0::nat, 42::int))) = 42"
proof -
  let ?t = "\<lparr>get_pool_size = (\<lambda>(n::nat, s::int). (Inr 3 :: string + int, (Suc n, s))),
      get_visited_count = (\<lambda>(n, s). (Inl ''not initialised'', (Suc n, s))),
      is_pool_empty = (\<lambda>(n, s). (Inr False, (Suc n, s)))\<rparr>"
  note th = get_scraping_stats_propagates
    [where tracker = ?t and w = "(0, 42)" and e = "''not initialised''" and p = 3
       and ?w1.0 = "(1, 42)" and ?w2.0 = "(2, 42)" and own = snd]
  have "get_scraping_stats ?t (0, 42) = (Inl ''not initialised'', (2, 42))"
    using th by (simp add: numeral_2_eq_2)
  moreover have "snd (snd (get_scraping_stats ?t (0, 42))) = 42"
    using th by (simp add: split_beta)
  ultimately show ?thesis by simp
qed

section \<open>Properties of the result formatter\<close>

lemma keep_essential_fields:
  "metadata (keep_essential e) =
     map_option (filter (\<lambda>(k, v). k \<in> {''url'', ''title'', ''content_type''})) (metadata e)"
  "content (keep_essential e) = content e"
  "discovered_urls (keep_essential e) = discovered_urls e"
  by (simp_all add: keep_essential_def essential_fields_def split: option.splits)

lemma keep_essential_idem: "keep_essential (keep_essential e) = keep_essential e"
  by (simp add: keep_essential_def split: option.splits)

lemma filter_metadata_at:
  "filter_metadata xs h a = (if a \<in> snd ` set xs then keep_essential (h a) else h a)"
proof (induction xs arbitrary: h)
  case Nil
  show ?case by (simp add: filter_metadata_def)
next
  case (Cons x xs)
  obtain u b where x: "x = (u, b)" by (cases x)
  have step: "filter_metadata (x # xs) h = filter_metadata xs (h(b := keep_essential (h b)))"
    by (simp add: filter_metadata_def x)
  show ?case
    unfolding step Cons.IH
    by (auto simp add: x keep_essential_idem)
qed

lemma for_items_error:
  assumes "for_items body h xs = Inl e"
    and "\<And>url d e'. body url d = Inl e' \<Longrightarrow> e' = KeyError ''content''"
  shows "e = KeyError ''content''"
  using assms(1)
proof (induction xs)
  case Nil
  then show ?case by simp
next
  case (Cons x xs)
  obtain u b where x: "x = (u, b)" by (cases x)
  from Cons show ?case
    by (auto simp add: x split: sum.splits dest: assms(2))
qed

lemma for_items_total:
  assumes "\<And>url a. (url, a) \<in> set xs \<Longrightarrow> \<exists>y. body url (h a) = Inr y"
  shows "\<exists>ys. for_items body h xs = Inr ys \<and> length ys = length xs"
  using assms
proof (induction xs)
  case Nil
  show ?case by simp
next
  case (Cons x xs)
  obtain u b where x: "x = (u, b)" by (cases x)
  obtain y where y: "body u (h b) = Inr y"
    using Cons.prems [of u b] by (auto simp add: x)
  obtain ys where ys: "for_items body h xs = Inr ys" "length ys = length xs"
    using Cons.IH Cons.prems by auto
  show ?case by (simp add: x y ys)
qed

lemma for_items_clean_keys:
  "for_items clean_item h xs = Inr items \<Longrightarrow> map fst items = map fst xs"
proof (induction xs arbitrary: items)
  case Nil
  then show ?case by simp
next
  case (Cons x xs)
  obtain u b where x: "x = (u, b)" by (cases x)
  from Cons.prems Cons.IH show ?case
    by (auto simp add: x clean_item_def Let_def split: sum.splits option.splits)
qed

lemma body_errors:
  "csv_row_urls dumps url d = Inl e \<Longrightarrow> e = KeyError ''content''"
  "csv_row dumps url d = Inl e \<Longrightarrow> e = KeyError ''content''"
  "clean_item url d = Inl e \<Longrightarrow> e = KeyError ''content''"
  by (auto simp add: csv_row_urls_def csv_row_def clean_item_def Let_def split: option.splits)

lemma body_total:
  "content d \<noteq> None \<Longrightarrow> \<exists>y. csv_row_urls dumps url d = Inr y"
  "content d \<noteq> None \<Longrightarrow> \<exists>y. csv_row dumps url d = Inr y"
  "content d \<noteq> None \<Longrightarrow> \<exists>y. clean_item url d = Inr y"
  by (auto simp add: csv_row_urls_def csv_row_def clean_item_def Let_def split: option.splits)

lemma filter_metadata_content:
  "content (filter_metadata xs h a) = content (h a)"
  by (simp add: filter_metadata_at keep_essential_fields)

lemma format_output_heap:
  "snd (format_output dumps h results fmt inc ess) =
     (if ess then filter_metadata (sort_key fst results) h else h)"
  by (simp add: format_output_def Let_def split: sum.splits)



lemma format_output_csv_urls:
  "fst (format_output dumps h results ''csv'' True ess) =
     (case for_items (csv_row_urls dumps)
             (if ess then filter_metadata (sort_key fst results) h else h)
             (sort_key fst results) of
        Inl e \<Rightarrow> Inl e
      | Inr rows \<Rightarrow> Inr (Table ([''URL'', ''Content'', ''Discovered URLs'', ''Metadata''] # rows)))"
  by (simp add: format_output_def Let_def split: sum.splits)

lemma format_output_csv_plain:
  "fst (format_output dumps h results ''csv'' False ess) =
     (case for_items (csv_row dumps)
             (if ess then filter_metadata (sort_key fst results) h else h)
             (sort_key fst results) of
        Inl e \<Rightarrow> Inl e
      | Inr rows \<Rightarrow> Inr (Table ([''URL'', ''Content'', ''Metadata''] # rows)))"
  by (simp add: format_output_def Let_def split: sum.splits)

lemma format_output_json_clean:
  "fst (format_output dumps h results ''json'' False ess) =
     (case for_items clean_item
             (if ess then filter_metadata (sort_key fst results) h else h)
             (sort_key fst results) of
        Inl e \<Rightarrow> Inl e
      | Inr clean_results \<Rightarrow> Inr (Mapping clean_results))"
  by (simp add: format_output_def Let_def split: sum.splits)

lemma format_output_json_urls:
  "fst (format_output dumps h results ''json'' True ess) =
     Inr (Mapping (map (\<lambda>(url, a). (url, (if ess then filter_metadata (sort_key fst results) h else h) a))
            (sort_key fst results)))"
  by (simp add: format_output_def Let_def)

lemma format_output_other:
  "fmt \<noteq> ''csv'' \<Longrightarrow> fmt \<noteq> ''json'' \<Longrightarrow>
   fst (format_output dumps h results fmt inc ess) = Inl (ValueError (''Invalid output format: '' @ fmt))"
  by (simp add: format_output_def Let_def)


lemma for_items_no_value_error:
  assumes "\<And>url d e'. body url d = Inl e' \<Longrightarrow> e' = KeyError ''content''"
  shows "for_items body h xs \<noteq> Inl (ValueError msg)"
proof
  assume "for_items body h xs = Inl (ValueError msg)"
  then have "ValueError msg = KeyError ''content''"
    using assms by (rule for_items_error)
  then show False by simp
qed

lemma loops_no_value_error:
  "for_items (csv_row_urls dumps) h xs \<noteq> Inl (ValueError msg)"
  "for_items (csv_row dumps) h xs \<noteq> Inl (ValueError msg)"
  "for_items clean_item h xs \<noteq> Inl (ValueError msg)"
  by (rule for_items_no_value_error, erule body_errors)+

lemma format_output_no_value_error:
  assumes "fmt = ''csv'' \<or> fmt = ''json''"
  shows "fst (format_output dumps h results fmt inc ess) \<noteq> Inl (ValueError msg)"
proof (cases inc)
  case True
  show ?thesis
  proof (cases "fmt = ''csv''")
    case True
    with \<open>inc\<close> show ?thesis
      using loops_no_value_error(1) [of dumps _ "sort_key fst results" msg]
      by (auto simp add: format_output_csv_urls split: sum.splits)
  next
    case False
    with assms \<open>inc\<close> show ?thesis
      by (simp add: format_output_json_urls)
  qed
next
  case False
  show ?thesis
  proof (cases "fmt = ''csv''")
    case True
    with \<open>\<not> inc\<close> show ?thesis
      using loops_no_value_error(2) [of dumps _ "sort_key fst results" msg]
      by (auto simp add: format_output_csv_plain split: sum.splits)
  next
    case False
    with assms \<open>\<not> inc\<close> show ?thesis
      using loops_no_value_error(3) [of _ "sort_key fst results" msg]
      by (auto simp add: format_output_json_clean split: sum.splits)
  qed
qed

lemma format_output_csv_table:
  assumes wf: "\<forall>(url, a) \<in> set results. content (h a) \<noteq> None"
  shows "\<exists>rows. fst (format_output dumps h results ''csv'' inc ess) =
            Inr (Table ((if inc then [''URL'', ''Content'', ''Discovered URLs'', ''Metadata'']
                         else [''URL'', ''Content'', ''Metadata'']) # rows)) \<and>
          length rows = length results"
proof -
  let ?h1 = "if ess then filter_metadata (sort_key fst results) h else h"
  have c: "content (?h1 a) \<noteq> None" if "(url, a) \<in> set (sort_key fst results)" for url a
    using wf that by (auto simp add: filter_metadata_content)
  show ?thesis
  proof (cases inc)
    case True
    obtain rows where "for_items (csv_row_urls dumps) ?h1 (sort_key fst results) = Inr rows"
      and "length rows = length (sort_key fst results)"
      using for_items_total [of "sort_key fst results" "csv_row_urls dumps" ?h1]
        body_total(1) c by blast
    with True show ?thesis by (simp add: format_output_csv_urls)
  next
    case False
    obtain rows where "for_items (csv_row dumps) ?h1 (sort_key fst results) = Inr rows"
      and "length rows = length (sort_key fst results)"
      using for_items_total [of "sort_key fst results" "csv_row dumps" ?h1]
        body_total(2) c by blast
    with False show ?thesis by (simp add: format_output_csv_plain)
  qed
qed

lemma format_output_json_mapping:
  assumes wf: "\<forall>(url, a) \<in> set results. content (h a) \<noteq> None"
  shows "\<exists>items. fst (format_output dumps h results ''json'' inc ess) = Inr (Mapping items) \<and>
          map fst items = map fst (sort_key fst results)"
proof -
  let ?h1 = "if ess then filter_metadata (sort_key fst results) h else h"
  have c: "content (?h1 a) \<noteq> None" if "(url, a) \<in> set (sort_key fst results)" for url a
    using wf that by (auto simp add: filter_metadata_content)
  show ?thesis
  proof (cases inc)
    case True
    then show ?thesis
      by (simp add: format_output_json_urls split_beta comp_def)
  next
    case False
    obtain items where items: "for_items clean_item ?h1 (sort_key fst results) = Inr items"
      using for_items_total [of "sort_key fst results" clean_item ?h1]
        body_total(3) c by blast
    then have "map fst items = map fst (sort_key fst results)"
      by (rule for_items_clean_keys)
    with False items show ?thesis by (simp add: format_output_json_clean)
  qed
qed

text \<open>
  C9: \<open>format_output\<close> raises \<open>ValueError\<close> exactly when the selector is neither
  \<open>csv\<close> nor \<open>json\<close>, whatever the results and the flags, and then with the message
  naming the selector. On a results mapping whose entries all have their \<open>content\<close>,
  the selector \<open>csv\<close> yields a table whose first row is the header, followed by one row
  for each entry, and the selector \<open>json\<close> yields a mapping with the URLs as keys, in
  their order.
\<close>

theorem format_output_invalid_format:
  "((\<exists>msg. fst (format_output dumps h results fmt inc ess) = Inl (ValueError msg)) =
      (fmt \<notin> {''csv'', ''json''})) \<and>
   (fmt \<notin> {''csv'', ''json''} \<longrightarrow>
      fst (format_output dumps h results fmt inc ess) =
        Inl (ValueError (''Invalid output format: '' @ fmt))) \<and>
   ((\<forall>(url, a) \<in> set results. content (h a) \<noteq> None) \<longrightarrow>
      (fmt = ''csv'' \<longrightarrow>
         (\<exists>rows. fst (format_output dumps h results fmt inc ess) =
                    Inr (Table ((if inc then [''URL'', ''Content'', ''Discovered URLs'', ''Metadata'']
                                 else [''URL'', ''Content'', ''Metadata'']) # rows)) \<and>
                  length rows = length results)) \<and>
      (fmt = ''json'' \<longrightarrow>
         (\<exists>items. fst (format_output dumps h results fmt inc ess) = Inr (Mapping items) \<and>
                   map fst items = map fst (sort_key fst results))))"
proof -
  have other: "fst (format_output dumps h results fmt inc ess) =
      Inl (ValueError (''Invalid output format: '' @ fmt))" if "fmt \<notin> {''csv'', ''json''}"
    using that by (simp add: format_output_other)
  have iff: "(\<exists>msg. fst (format_output dumps h results fmt inc ess) = Inl (ValueError msg)) =
      (fmt \<notin> {''csv'', ''json''})"
  proof (cases "fmt \<in> {''csv'', ''json''}")
    case True
    then have "fst (format_output dumps h results fmt inc ess) \<noteq> Inl (ValueError msg)" for msg
      using format_output_no_value_error [of fmt dumps h results inc ess msg] by blast
    with True show ?thesis by blast
  next
    case False
    with other show ?thesis by simp
  qed
  have csv: "\<exists>rows. fst (format_output dumps h results fmt inc ess) =
                    Inr (Table ((if inc then [''URL'', ''Content'', ''Discovered URLs'', ''Metadata'']
                                 else [''URL'', ''Content'', ''Metadata'']) # rows)) \<and>
                  length rows = length results"
    if "\<forall>(url, a) \<in> set results. content (h a) \<noteq> None" "fmt = ''csv''"
    using format_output_csv_table [OF that(1), of dumps inc ess] that(2) by simp
  have json: "\<exists>items. fst (format_output dumps h results fmt inc ess) = Inr (Mapping items) \<and>
                   map fst items = map fst (sort_key fst results)"
    if "\<forall>(url, a) \<in> set results. content (h a) \<noteq> None" "fmt = ''json''"
    using format_output_json_mapping [OF that(1), of dumps inc ess] that(2) by simp
  from iff other csv json show ?thesis by blast
qed


theorem format_output_invalid_format_witness:
  "fst (format_output (\<lambda>md. join '';'' (map fst md))
         ((\<lambda>a. \<lparr>content = None, discovered_urls = None, metadata = None\<rparr>)
            (0 := \<lparr>content = Some ''text'', discovered_urls = Some [''http://b''],
                   metadata = Some [(''url'', ''http://a''), (''author'', ''me'')]\<rparr>))
         [(''http://a'', 0)] ''xml'' False True) =
     Inl (ValueError ''Invalid output format: xml'') \<and>
   fst (format_output (\<lambda>md. join '';'' (map fst md))
         ((\<lambda>a. \<lparr>content = None, discovered_urls = None, metadata = None\<rparr>)
            (0 := \<lparr>content = Some ''text'', discovered_urls = Some [''http://b''],
                   metadata = Some [(''url'', ''http://a''), (''author'', ''me'')]\<rparr>))
         [(''http://a'', 0)] ''csv'' False True) =
     Inr (Table [[''URL'', ''Content'', ''Metadata''], [''http://a'', ''text'', ''url'']])"
proof -
  let ?dumps = "\<lambda>md :: (string \<times> string) list. join '';'' (map fst md)"
  let ?h = "(\<lambda>a. \<lparr>content = None, discovered_urls = None, metadata = None\<rparr>)
            (0 := \<lparr>content = Some ''text'', discovered_urls = Some [''http://b''],
                   metadata = Some [(''url'', ''http://a''), (''author'', ''me'')]\<rparr>)"
  let ?results = "[(''http://a'', 0::nat)]"
  have wf: "\<forall>(url, a) \<in> set ?results. content (?h a) \<noteq> None"
    by simp
  have "fst (format_output ?dumps ?h ?results ''xml'' False True) =
      Inl (ValueError ''Invalid output format: xml'')"
    using format_output_invalid_format [of ?dumps ?h ?results "''xml''" False True]
    by simp
  moreover have "fst (format_output ?dumps ?h ?results ''csv'' False True) =
      Inr (Table [[''URL'', ''Content'', ''Metadata''], [''http://a'', ''text'', ''url'']])"
    using format_output_invalid_format [of ?dumps ?h ?results "''csv''" False True] wf
    by (simp add: format_output_csv_plain filter_metadata_def keep_essential_def
        essential_fields_def csv_row_def get_default_def Let_def)
  ultimately show ?thesis by simp
qed

text \<open>
  C10: with \<open>essential_metadata_only\<close> set, \<open>format_output\<close> writes into the entries of
  its caller's \<open>results\<close>. In the heap it leaves, every entry of \<open>results\<close> that had a
  metadata dictionary has, in its place, the one restricted to the keys \<open>url\<close>, \<open>title\<close>
  and \<open>content_type\<close>; the other keys of the entry, and all other objects, are as
  before. This holds for every selector: the write precedes the test of the selector,
  so a call that raises the invalid-format error has made it too. With the flag unset
  the heap is left as it was.
\<close>

theorem format_output_mutates_results:
  "(\<forall>(url, a) \<in> set results.
      metadata (snd (format_output dumps h results fmt inc True) a) =
        map_option (filter (\<lambda>(k, v). k \<in> {''url'', ''title'', ''content_type''}))
          (metadata (h a)) \<and>
      content (snd (format_output dumps h results fmt inc True) a) = content (h a) \<and>
      discovered_urls (snd (format_output dumps h results fmt inc True) a) =
        discovered_urls (h a)) \<and>
   (\<forall>a. a \<notin> snd ` set results \<longrightarrow> snd (format_output dumps h results fmt inc True) a = h a) \<and>
   (fmt \<notin> {''csv'', ''json''} \<longrightarrow>
      fst (format_output dumps h results fmt inc True) =
        Inl (ValueError (''Invalid output format: '' @ fmt))) \<and>
   snd (format_output dumps h results fmt inc False) = h"
proof -
  have heap: "snd (format_output dumps h results fmt inc True) a =
      (if a \<in> snd ` set results then keep_essential (h a) else h a)" for a
    by (simp add: format_output_heap filter_metadata_at)
  have inside: "a \<in> snd ` set results" if "(url, a) \<in> set results" for url a
    using that by force
  have "fst (format_output dumps h results fmt inc True) =
      Inl (ValueError (''Invalid output format: '' @ fmt))" if "fmt \<notin> {''csv'', ''json''}"
    using that by (simp add: format_output_other)
  moreover have "snd (format_output dumps h results fmt inc False) = h"
    by (simp add: format_output_heap)
  ultimately show ?thesis
    by (auto simp add: heap inside keep_essential_fields)
qed

theorem format_output_mutates_results_witness:
  "format_output (\<lambda>md. join '';'' (map fst md))
     ((\<lambda>a. \<lparr>content = None, discovered_urls = None, metadata = None\<rparr>)
        (0 := \<lparr>content = Some ''text'', discovered_urls = Some [''http://b''],
               metadata = Some [(''url'', ''http://a''), (''author'', ''me''), (''title'', ''A'')]\<rparr>))
     [(''http://a'', 0)] ''xml'' False True =
   (Inl (ValueError ''Invalid output format: xml''),
    (\<lambda>a. \<lparr>content = None, discovered_urls = None, metadata = None\<rparr>)
        (0 := \<lparr>content = Some ''text'', discovered_urls = Some [''http://b''],
               metadata = Some [(''url'', ''http://a''), (''title'', ''A'')]\<rparr>)) \<and>
   metadata (snd (format_output (\<lambda>md. join '';'' (map fst md))
     ((\<lambda>a. \<lparr>content = None, discovered_urls = None, metadata = None\<rparr>)
        (0 := \<lparr>content = Some ''text'', discovered_urls = Some [''http://b''],
               metadata = Some [(''url'', ''http://a''), (''author'', ''me''), (''title'', ''A'')]\<rparr>))
     [(''http://a'', 0)] ''xml'' False True) 0) =
   Some [(''url'', ''http://a''), (''title'', ''A'')]"
proof -
  let ?dumps = "\<lambda>md :: (string \<times> string) list. join '';'' (map fst md)"
  let ?h = "(\<lambda>a. \<lparr>content = None, discovered_urls = None, metadata = None\<rparr>)
        (0 := \<lparr>content = Some ''text'', discovered_urls = Some [''http://b''],
               metadata = Some [(''url'', ''http://a''), (''author'', ''me''), (''title'', ''A'')]\<rparr>)"
  let ?results = "[(''http://a'', 0::nat)]"
  have run: "format_output ?dumps ?h ?results ''xml'' False True =
     (Inl (ValueError ''Invalid output format: xml''),
      (\<lambda>a. \<lparr>content = None, discovered_urls = None, metadata = None\<rparr>)
        (0 := \<lparr>content = Some ''text'', discovered_urls = Some [''http://b''],
               metadata = Some [(''url'', ''http://a''), (''title'', ''A'')]\<rparr>))"
    by (simp add: format_output_def filter_metadata_def keep_essential_def
        essential_fields_def Let_def)
  have "metadata (snd (format_output ?dumps ?h ?results ''xml'' False True) 0) =
      Some [(''url'', ''http://a''), (''title'', ''A'')]"
    using format_output_mutates_results [of ?results ?dumps ?h "''xml''" False]
    by simp
  with run show ?thesis by simp
qed

end
